theory Spec2Isabelle
  imports Complex_Main
begin

section \<open>Strings as the backend uses them\<close>

text \<open>
  The backend works on Python strings with \<open>str.lower()\<close> and the substring test
  \<open>kw in text\<close>. Strings are modelled as lists of characters. On ASCII text
  \<open>str.lower()\<close> maps the letters A to Z to a to z and leaves every other character
  alone. A to Z are the codes 65 to 90: the three high bits are 010 and the five low bits
  spell 1 to 26; the lower-case letter is the same code with bit 5 set.
\<close>

fun is_letter_index :: "bool \<Rightarrow> bool \<Rightarrow> bool \<Rightarrow> bool \<Rightarrow> bool \<Rightarrow> bool" where
  "is_letter_index b0 b1 b2 b3 b4 =
     ((b0 \<or> b1 \<or> b2 \<or> b3 \<or> b4) \<and> \<not> (b4 \<and> b3 \<and> (b2 \<or> (b1 \<and> b0))))"

fun lower_char :: "char \<Rightarrow> char" where
  "lower_char (Char b0 b1 b2 b3 b4 b5 b6 b7) =
     (if \<not> b7 \<and> b6 \<and> \<not> b5 \<and> is_letter_index b0 b1 b2 b3 b4
      then Char b0 b1 b2 b3 b4 True b6 b7
      else Char b0 b1 b2 b3 b4 b5 b6 b7)"

fun upper_char :: "char \<Rightarrow> char" where
  "upper_char (Char b0 b1 b2 b3 b4 b5 b6 b7) =
     (if \<not> b7 \<and> b6 \<and> b5 \<and> is_letter_index b0 b1 b2 b3 b4
      then Char b0 b1 b2 b3 b4 False b6 b7
      else Char b0 b1 b2 b3 b4 b5 b6 b7)"

definition lower :: "string \<Rightarrow> string" where
  "lower s = map lower_char s"

definition upper :: "string \<Rightarrow> string" where
  "upper s = map upper_char s"

fun starts_with :: "string \<Rightarrow> string \<Rightarrow> bool" where
  "starts_with [] s = True"
| "starts_with (x # xs) [] = False"
| "starts_with (x # xs) (y # ys) = (x = y \<and> starts_with xs ys)"

text \<open>\<open>contains sub s\<close> is Python's \<open>sub in s\<close>.\<close>

fun contains :: "string \<Rightarrow> string \<Rightarrow> bool" where
  "contains sub [] = (sub = [])"
| "contains sub (c # cs) = (starts_with sub (c # cs) \<or> contains sub cs)"

section \<open>Data model\<close>

text \<open>
  A signal is the dictionary every fetcher (and \<open>MOCK_SIGNALS\<close>) builds: all five keys
  are always present, so the \<open>.get\<close> defaults of the readers are never taken. The mock
  signals carry integer ids, the fetched ones string ids.
\<close>

datatype sid = IntId int | StrId string

record signal =
  sig_id :: sid
  source :: string
  headline :: string
  content :: string
  sig_keywords :: "string list"

datatype label = Positive | Negative | Neutral

datatype urgency = Low | Medium | High | Critical

datatype recommendation = Monitor | Hold

datatype market_state = Bearish | Bullish

text \<open>
  The analysed signal is \<open>{**signal, "sentiment": ..., ...}\<close>. The display string
  \<open>ai_analysis\<close> interpolates the score and the label; the model keeps the two values.
\<close>

record analyzed = signal +
  sentiment :: label
  sentiment_score :: real
  ai_analysis :: "real \<times> label"
  urgency :: urgency
  recommendation :: recommendation

text \<open>
  A stored user: \<open>chat_id\<close> and \<open>watchlist\<close> are read with \<open>.get\<close>, so either may be
  absent. The users dictionary keeps insertion order; it is an association list whose
  keys are the usernames.
\<close>

record user_data =
  chat_id :: "string option"
  watchlist :: "string list option"

type_synonym users = "(string \<times> user_data) list"

section \<open>Sentiment classifier\<close>

text \<open>
  \<open>analyzer.polarity_scores(text)["compound"]\<close> is the external scorer; it is a parameter
  of the model. Scores are Python floats; the model reads them as the real numbers they
  denote. Comparing two floats is exact, and no float lies strictly between \<open>0.05\<close> and
  the float nearest to it, so the comparisons below decide the same way on every float.
\<close>

type_synonym scorer = "string \<Rightarrow> real"

definition analyze_sentiment :: "scorer \<Rightarrow> string \<Rightarrow> label \<times> real" where
  "analyze_sentiment analyzer text =
     (let compound = analyzer text;
          label = (if compound \<ge> 0.05 then Positive
                   else if compound \<le> - 0.05 then Negative
                   else Neutral)
      in (label, compound))"

section \<open>Classification step\<close>

text \<open>
  \<open>round(x, 3)\<close>: to three decimals, ties to even, on the real number the float denotes.
\<close>

definition round_half_even :: "real \<Rightarrow> int" where
  "round_half_even x =
     (let f = \<lfloor>x\<rfloor>; d = x - of_int f
      in if d < 1 / 2 then f else if 1 / 2 < d then f + 1 else if even f then f else f + 1)"

definition round3 :: "real \<Rightarrow> real" where
  "round3 x = of_int (round_half_even (x * 1000)) / 1000"

definition full_text :: "'a signal_scheme \<Rightarrow> string" where
  "full_text s = headline s @ '' '' @ content s"

definition classify_urgency :: "label \<Rightarrow> real \<Rightarrow> string \<Rightarrow> urgency" where
  "classify_urgency sentiment_label score text =
     (if sentiment_label = Negative then
        (let u = (if score < - 0.5 then High else Low)
         in if contains ''crash'' (lower text) \<or> contains ''plunge'' (lower text)
            then Critical else u)
      else Low)"

definition analyze_signal :: "scorer \<Rightarrow> signal \<Rightarrow> analyzed" where
  "analyze_signal analyzer s =
     (let (sentiment_label, score) = analyze_sentiment analyzer (full_text s);
          u = classify_urgency sentiment_label score (full_text s)
      in \<lparr> sig_id = sig_id s, source = source s, headline = headline s,
           content = content s, sig_keywords = sig_keywords s,
           sentiment = sentiment_label,
           sentiment_score = round3 score,
           ai_analysis = (score, sentiment_label),
           urgency = u,
           recommendation = (if u = High \<or> u = Critical then Monitor else Hold) \<rparr>)"

text \<open>
  The loop of \<open>analyze_signals_with_llm\<close>, with its three accumulators: the analysed
  list, \<open>bearish_count\<close> and \<open>bullish_count\<close>.
\<close>

fun analyze_loop ::
  "scorer \<Rightarrow> signal list \<Rightarrow> analyzed list \<times> nat \<times> nat \<Rightarrow> analyzed list \<times> nat \<times> nat" where
  "analyze_loop analyzer [] acc = acc"
| "analyze_loop analyzer (s # ss) (analyzed, bearish_count, bullish_count) =
     (let a = analyze_signal analyzer s
      in analyze_loop analyzer ss
           (analyzed @ [a],
            (if sentiment a = Negative then bearish_count + 1 else bearish_count),
            (if sentiment a = Positive then bullish_count + 1 else bullish_count)))"

text \<open>
  The summary sentence interpolates the number of signals and the market state; the
  model returns the two values.
\<close>

definition analyze_signals_with_llm ::
  "scorer \<Rightarrow> signal list \<Rightarrow> analyzed list \<times> (nat \<times> market_state)" where
  "analyze_signals_with_llm analyzer signals =
     (let (analyzed, bearish_count, bullish_count) = analyze_loop analyzer signals ([], 0, 0);
          state = (if bearish_count > bullish_count then Bearish else Bullish)
      in (analyzed, (length signals, state)))"

section \<open>Signal acquisition\<close>

definition MOCK_SIGNALS :: "signal list" where
  "MOCK_SIGNALS =
    [\<lparr> sig_id = IntId 1, source = ''Reuters'',
       headline = ''Apple reports record quarterly earnings, stock surges 5%'',
       content = ''Apple Inc. announced exceptional quarterly results, beating analyst expectations.'',
       sig_keywords = [''Apple'', ''AAPL'', ''earnings''] \<rparr>,
     \<lparr> sig_id = IntId 2, source = ''Bloomberg'',
       headline = ''Bitcoin crashes 15% amid regulatory fears'',
       content = ''Cryptocurrency markets tumble as SEC announces new enforcement actions against major exchanges.'',
       sig_keywords = [''Bitcoin'', ''BTC'', ''crypto'', ''SEC''] \<rparr>,
     \<lparr> sig_id = IntId 3, source = ''CNBC'',
       headline = ''Tesla faces production delays, shares drop 8%'',
       content = ''Tesla Inc. announced significant production challenges at its Berlin factory, causing investor concern.'',
       sig_keywords = [''Tesla'', ''TSLA'', ''EV''] \<rparr>,
     \<lparr> sig_id = IntId 4, source = ''Financial Times'',
       headline = ''Microsoft Azure growth exceeds expectations'',
       content = ''Microsoft's cloud computing division continues strong performance, driving overall company growth.'',
       sig_keywords = [''Microsoft'', ''MSFT'', ''Azure'', ''cloud''] \<rparr>,
     \<lparr> sig_id = IntId 5, source = ''Twitter/X'',
       headline = ''BREAKING: Major bank announces massive layoffs'',
       content = ''One of the largest investment banks is cutting 10,000 jobs worldwide amid economic uncertainty.'',
       sig_keywords = [''banking'', ''layoffs'', ''recession''] \<rparr>,
     \<lparr> sig_id = IntId 6, source = ''Reddit r/wallstreetbets'',
       headline = ''GameStop sees unusual trading activity again'',
       content = ''Retail investors are buzzing about potential short squeeze opportunities in GME stock.'',
       sig_keywords = [''GameStop'', ''GME'', ''meme stocks''] \<rparr>,
     \<lparr> sig_id = IntId 7, source = ''Associated Press'',
       headline = ''Oil prices stable as OPEC maintains production levels'',
       content = ''Crude oil markets remain steady following OPEC's decision to keep current output quotas.'',
       sig_keywords = [''oil'', ''OPEC'', ''energy''] \<rparr>,
     \<lparr> sig_id = IntId 8, source = ''CoinDesk'',
       headline = ''Ethereum upgrade causes network instability'',
       content = ''The latest Ethereum protocol update has resulted in temporary network congestion and failed transactions.'',
       sig_keywords = [''Ethereum'', ''ETH'', ''crypto''] \<rparr>]"

text \<open>
  \<open>fetch_all_signals\<close> concatenates what the three fetchers return (each absorbs its own
  failures and returns the list it has built); their results are parameters.
\<close>

definition fetch_all_signals :: "signal list \<Rightarrow> signal list \<Rightarrow> signal list \<Rightarrow> signal list" where
  "fetch_all_signals reddit yahoo moneycontrol =
     (let all_signals = reddit @ yahoo @ moneycontrol
      in if all_signals = [] then MOCK_SIGNALS else all_signals)"

section \<open>User store\<close>

text \<open>
  The data file holds \<open>{"users": {...}}\<close>; \<open>None\<close> is a file that does not exist yet,
  which \<open>load_data\<close> creates with no users. The result is the data and the file after
  the call.
\<close>

definition load_data :: "users option \<Rightarrow> users \<times> users option" where
  "load_data file = (case file of None \<Rightarrow> ([], Some []) | Some d \<Rightarrow> (d, Some d))"

section \<open>Notification transport\<close>

text \<open>
  A message is the tuple of values its f-string interpolates (the fixed text around them
  is left out). The network is a parameter: the answer to a POST may depend on
  everything sent before, so it is a function of the calls made so far, and the model
  keeps that list as the state of the transport.
\<close>

datatype message =
  Alert urgency string string label real "string list" "real \<times> label" recommendation
| AutoAlert string string string

datatype http_result = Responded nat | RequestFailed

type_synonym call = "string \<times> message \<times> http_result"

type_synonym transport = "call list \<Rightarrow> string \<Rightarrow> message \<Rightarrow> http_result"

definition send_telegram_alert ::
  "string option \<Rightarrow> transport \<Rightarrow> call list \<Rightarrow> string \<Rightarrow> message \<Rightarrow> bool \<times> call list" where
  "send_telegram_alert token post calls chat msg =
     (if token = None \<or> token = Some [] then (False, calls)
      else (let r = post calls chat msg
            in (r = Responded 200, calls @ [(chat, msg, r)])))"

definition delivered :: "call \<Rightarrow> bool" where
  "delivered c = (snd (snd c) = Responded 200)"

record run_state =
  alerts_sent :: nat
  calls :: "call list"

section \<open>On-demand scan\<close>

text \<open>
  \<open>set_list\<close> is \<open>list(s)\<close> for a set of strings: the order in which the interpreter
  iterates over the set. It is a parameter.
\<close>

type_synonym set_order = "string set \<Rightarrow> string list"

record match_record =
  m_user :: string
  m_signal_id :: sid
  m_headline :: string
  m_matched_keywords :: "string list"
  m_sentiment :: label
  m_urgency :: urgency
  m_ai_analysis :: "real \<times> label"

record trigger_state = run_state +
  matches_found :: "match_record list"

definition get_watchlist :: "user_data \<Rightarrow> string list" where
  "get_watchlist ud = (case watchlist ud of None \<Rightarrow> [] | Some w \<Rightarrow> w)"

text \<open>The body of the loop over users, for one signal that passed the filter.\<close>

definition trigger_user ::
  "string option \<Rightarrow> transport \<Rightarrow> set_order \<Rightarrow> analyzed \<Rightarrow> string list \<Rightarrow>
   string \<Rightarrow> user_data \<Rightarrow> trigger_state \<Rightarrow> trigger_state" where
  "trigger_user token post set_list signal signal_keywords username ud st =
     (let user_watchlist = map lower (get_watchlist ud);
          matched_keywords = set signal_keywords \<inter> set user_watchlist
      in if matched_keywords = {} then st
         else
           (let alert_message =
                  Alert (urgency signal) (headline signal) (source signal) (sentiment signal)
                    (sentiment_score signal) (set_list matched_keywords) (ai_analysis signal)
                    (recommendation signal);
                st1 = (case chat_id ud of
                         None \<Rightarrow> st
                       | Some c \<Rightarrow>
                           if c = [] then st
                           else (let (success, calls') =
                                       send_telegram_alert token post (calls st) c alert_message
                                 in st\<lparr> alerts_sent :=
                                           (if success then alerts_sent st + 1 else alerts_sent st),
                                         calls := calls' \<rparr>))
            in st1\<lparr> matches_found := matches_found st1 @
                       [\<lparr> m_user = username, m_signal_id = sig_id signal,
                          m_headline = headline signal,
                          m_matched_keywords = set_list matched_keywords,
                          m_sentiment = sentiment signal, m_urgency = urgency signal,
                          m_ai_analysis = ai_analysis signal \<rparr>] \<rparr>))"

fun trigger_users ::
  "string option \<Rightarrow> transport \<Rightarrow> set_order \<Rightarrow> analyzed \<Rightarrow> string list \<Rightarrow>
   users \<Rightarrow> trigger_state \<Rightarrow> trigger_state" where
  "trigger_users token post set_list signal signal_keywords [] st = st"
| "trigger_users token post set_list signal signal_keywords ((username, ud) # rest) st =
     trigger_users token post set_list signal signal_keywords rest
       (trigger_user token post set_list signal signal_keywords username ud st)"

text \<open>The filter of the on-demand scan: Negative, or urgency high or critical.\<close>

definition admitted :: "analyzed \<Rightarrow> bool" where
  "admitted signal = (\<not> (sentiment signal \<noteq> Negative \<and> urgency signal \<notin> {Critical, High}))"

definition trigger_signal ::
  "string option \<Rightarrow> transport \<Rightarrow> set_order \<Rightarrow> users \<Rightarrow> analyzed \<Rightarrow>
   trigger_state \<Rightarrow> trigger_state" where
  "trigger_signal token post set_list stored_data signal st =
     (if \<not> admitted signal then st
      else trigger_users token post set_list signal (map lower (sig_keywords signal))
             stored_data st)"

fun trigger_signals ::
  "string option \<Rightarrow> transport \<Rightarrow> set_order \<Rightarrow> users \<Rightarrow> analyzed list \<Rightarrow>
   trigger_state \<Rightarrow> trigger_state" where
  "trigger_signals token post set_list stored_data [] st = st"
| "trigger_signals token post set_list stored_data (signal # rest) st =
     trigger_signals token post set_list stored_data rest
       (trigger_signal token post set_list stored_data signal st)"

record response =
  success :: bool
  r_alerts_sent :: nat
  r_matches_found :: nat
  market_summary :: "nat \<times> market_state"
  details :: "match_record list"

text \<open>
  The handler: the response, the data file after the call and the transport calls made.
\<close>

definition trigger_check ::
  "users option \<Rightarrow> signal list \<Rightarrow> signal list \<Rightarrow> signal list \<Rightarrow> scorer \<Rightarrow>
   string option \<Rightarrow> transport \<Rightarrow> set_order \<Rightarrow> call list \<Rightarrow>
   response \<times> users option \<times> call list" where
  "trigger_check file reddit yahoo moneycontrol analyzer token post set_list calls0 =
     (let (stored_data, file') = load_data file;
          real_signals = fetch_all_signals reddit yahoo moneycontrol;
          (analyzed_signals, summary) = analyze_signals_with_llm analyzer real_signals;
          st = trigger_signals token post set_list stored_data analyzed_signals
                 \<lparr> alerts_sent = 0, calls = calls0, matches_found = [] \<rparr>
      in (\<lparr> success = True, r_alerts_sent = alerts_sent st,
            r_matches_found = length (matches_found st),
            market_summary = summary, details = matches_found st \<rparr>,
          file', calls st))"

section \<open>Scheduled scan\<close>

definition bearish_keywords :: "string list" where
  "bearish_keywords =
     [''crash'', ''fall'', ''drop'', ''plunge'', ''loss'', ''sell-off'', ''collapse'']"

definition is_bearish :: "signal \<Rightarrow> bool" where
  "is_bearish signal =
     list_ex (\<lambda>kw. contains kw (lower (headline signal))) bearish_keywords"

text \<open>
  \<open>sent_alert_cache\<close> is \<open>{user: {topic: timestamp}}\<close>. The loop over signals works on
  the inner dictionary of the current user, which exists by then; \<open>user_cache\<close> is that
  dictionary. \<open>first_of s\<close> is \<open>list(s)[0]\<close> for a set that is not empty: the first
  element in the interpreter's iteration order, a parameter.
\<close>

type_synonym ledger = "string \<rightharpoonup> (string \<rightharpoonup> real)"

record user_scan = run_state +
  user_alerts_this_run :: nat
  user_cache :: "string \<rightharpoonup> real"

record sched_state = run_state +
  sent_alert_cache :: ledger

definition last_sent_time :: "(string \<rightharpoonup> real) \<Rightarrow> string \<Rightarrow> real" where
  "last_sent_time inner topic = (case inner topic of None \<Rightarrow> 0 | Some t \<Rightarrow> t)"

text \<open>The body of the loop over signals, after the check of the per-run cap.\<close>

definition scan_signal ::
  "string option \<Rightarrow> transport \<Rightarrow> (string set \<Rightarrow> string) \<Rightarrow> real \<Rightarrow> user_data \<Rightarrow>
   string list \<Rightarrow> signal \<Rightarrow> user_scan \<Rightarrow> user_scan" where
  "scan_signal token post first_of current_time ud user_watchlist signal st =
     (if \<not> is_bearish signal then st
      else
        (let signal_keywords = map lower (sig_keywords signal);
             matched_keywords = set signal_keywords \<inter> set user_watchlist
         in if matched_keywords = {} then st
            else
              (let topic = first_of matched_keywords
               in if current_time - last_sent_time (user_cache st) topic < 14400 then st
                  else
                    (let alert_message = AutoAlert (headline signal) (source signal) topic
                     in case chat_id ud of
                          None \<Rightarrow> st
                        | Some c \<Rightarrow>
                            if c = [] then st
                            else (let (ok, calls') =
                                        send_telegram_alert token post (calls st) c alert_message
                                  in if ok
                                     then st\<lparr> alerts_sent := alerts_sent st + 1,
                                              calls := calls',
                                              user_alerts_this_run := user_alerts_this_run st + 1,
                                              user_cache := (user_cache st)(topic \<mapsto> current_time) \<rparr>
                                     else st\<lparr> calls := calls' \<rparr>)))))"

fun scan_signals ::
  "string option \<Rightarrow> transport \<Rightarrow> (string set \<Rightarrow> string) \<Rightarrow> real \<Rightarrow> user_data \<Rightarrow>
   string list \<Rightarrow> signal list \<Rightarrow> user_scan \<Rightarrow> user_scan" where
  "scan_signals token post first_of current_time ud user_watchlist [] st = st"
| "scan_signals token post first_of current_time ud user_watchlist (signal # rest) st =
     (if user_alerts_this_run st \<ge> 2 then st
      else scan_signals token post first_of current_time ud user_watchlist rest
             (scan_signal token post first_of current_time ud user_watchlist signal st))"

text \<open>The body of the loop over users.\<close>

definition scan_user ::
  "string option \<Rightarrow> transport \<Rightarrow> (string set \<Rightarrow> string) \<Rightarrow> real \<Rightarrow> signal list \<Rightarrow>
   string \<Rightarrow> user_data \<Rightarrow> sched_state \<Rightarrow> sched_state" where
  "scan_user token post first_of current_time real_signals username ud st =
     (let inner = (case sent_alert_cache st username of None \<Rightarrow> Map.empty | Some m \<Rightarrow> m);
          user_watchlist = map lower (get_watchlist ud);
          st' = scan_signals token post first_of current_time ud user_watchlist real_signals
                  \<lparr> alerts_sent = alerts_sent st, calls = calls st,
                    user_alerts_this_run = 0, user_cache = inner \<rparr>
      in \<lparr> alerts_sent = alerts_sent st', calls = calls st',
           sent_alert_cache = (sent_alert_cache st)(username \<mapsto> user_cache st') \<rparr>)"

fun scan_users ::
  "string option \<Rightarrow> transport \<Rightarrow> (string set \<Rightarrow> string) \<Rightarrow> real \<Rightarrow> signal list \<Rightarrow>
   users \<Rightarrow> sched_state \<Rightarrow> sched_state" where
  "scan_users token post first_of current_time real_signals [] st = st"
| "scan_users token post first_of current_time real_signals ((username, ud) # rest) st =
     scan_users token post first_of current_time real_signals rest
       (scan_user token post first_of current_time real_signals username ud st)"

text \<open>
  One run of the background job. With no user registered it returns before fetching
  anything; otherwise it reports the number of alerts sent. The result also holds the
  ledger, the transport calls and the data file after the run.
\<close>

datatype outcome = NoUsers | Completed nat

definition run_scheduled_alert_check ::
  "users option \<Rightarrow> real \<Rightarrow> signal list \<Rightarrow> signal list \<Rightarrow> signal list \<Rightarrow>
   string option \<Rightarrow> transport \<Rightarrow> (string set \<Rightarrow> string) \<Rightarrow> ledger \<Rightarrow> call list \<Rightarrow>
   outcome \<times> ledger \<times> call list \<times> users option" where
  "run_scheduled_alert_check file current_time reddit yahoo moneycontrol token post first_of
       cache calls0 =
     (let (stored_data, file') = load_data file
      in if stored_data = [] then (NoUsers, cache, calls0, file')
         else
           (let real_signals = fetch_all_signals reddit yahoo moneycontrol;
                st = scan_users token post first_of current_time real_signals stored_data
                       \<lparr> alerts_sent = 0, calls = calls0, sent_alert_cache = cache \<rparr>
            in (Completed (alerts_sent st), sent_alert_cache st, calls st, file')))"


section \<open>Reference definitions\<close>

text \<open>
  What the on-demand scan is expected to report, written as a list comprehension over the
  admitted signals and the users: one pair for every user whose lower-cased watchlist
  shares a keyword with the lower-cased keywords of the signal.
\<close>

definition keyword_match :: "analyzed \<Rightarrow> user_data \<Rightarrow> bool" where
  "keyword_match signal ud =
     (set (map lower (sig_keywords signal)) \<inter> set (map lower (get_watchlist ud)) \<noteq> {})"

definition matching_pairs :: "users \<Rightarrow> analyzed list \<Rightarrow> (string \<times> sid) list" where
  "matching_pairs stored_data analyzed_signals =
     concat (map (\<lambda>signal. map (\<lambda>u. (fst u, sig_id signal))
                              (filter (\<lambda>u. keyword_match signal (snd u)) stored_data))
                 (filter admitted analyzed_signals))"

definition match_key :: "match_record \<Rightarrow> string \<times> sid" where
  "match_key m = (m_user m, m_signal_id m)"

text \<open>
  Vocabulary for the scheduled scan: the timestamp the ledger holds for a user and a
  topic, the topic an automatic alert is about, the keyword intersection the loop body
  computes, and a bot token that is set.
\<close>

definition ledger_entry :: "ledger \<Rightarrow> string \<Rightarrow> string \<Rightarrow> real option" where
  "ledger_entry cache username topic =
     (case cache username of None \<Rightarrow> None | Some inner \<Rightarrow> inner topic)"

definition about_topic :: "string \<Rightarrow> call \<Rightarrow> bool" where
  "about_topic topic c =
     (case fst (snd c) of AutoAlert h s t \<Rightarrow> t = topic | Alert u h s l x ks a r \<Rightarrow> False)"

definition matched_of :: "string list \<Rightarrow> 'a signal_scheme \<Rightarrow> string set" where
  "matched_of user_watchlist signal = set (map lower (sig_keywords signal)) \<inter> set user_watchlist"

definition valid_token :: "string option \<Rightarrow> bool" where
  "valid_token token = (token \<noteq> None \<and> token \<noteq> Some [])"



section \<open>Example inputs\<close>

text \<open>A headline that names a crash and is scored by the text around it.\<close>

definition crash_rally :: signal where
  "crash_rally =
     \<lparr> sig_id = StrId ''yahoo_1'', source = ''Yahoo Finance (AAPL)'',
       headline = ''Great rally: crash fears fade'', content = ''Stocks surge'',
       sig_keywords = [''rally''] \<rparr>"

text \<open>
  The scenario of the specification: one signal on Bitcoin, two users watching it, and
  a transport that delivers to the first chat only.
\<close>

definition bitcoin_crash :: signal where
  "bitcoin_crash =
     \<lparr> sig_id = StrId ''reddit_1abc'', source = ''Reddit r/stocks'',
       headline = ''Bitcoin crashes 15%'', content = ''Bitcoin crashes 15%'',
       sig_keywords = [''Bitcoin'', ''crypto''] \<rparr>"

definition alice_and_bob :: users where
  "alice_and_bob =
     [(''alice'', \<lparr> chat_id = Some ''111'', watchlist = Some [''bitcoin''] \<rparr>),
      (''bob'', \<lparr> chat_id = Some ''222'', watchlist = Some [''Crypto''] \<rparr>)]"

definition only_111 :: transport where
  "only_111 cs chat msg = (if chat = ''111'' then Responded 200 else RequestFailed)"

definition in_order :: "string list \<Rightarrow> set_order" where
  "in_order ks S = filter (\<lambda>k. k \<in> S) ks"

text \<open>
  A user watching Bitcoin, transports that always or never deliver, an iteration order
  that follows a given list, and loop states with an empty and with a recent ledger.
\<close>

definition watcher :: user_data where
  "watcher = \<lparr> chat_id = Some ''111'', watchlist = Some [''bitcoin''] \<rparr>"

definition always_ok :: transport where
  "always_ok cs chat msg = Responded 200"

definition never_ok :: transport where
  "never_ok cs chat msg = RequestFailed"

definition first_listed :: "string list \<Rightarrow> string set \<Rightarrow> string" where
  "first_listed ks S = (case filter (\<lambda>k. k \<in> S) ks of [] \<Rightarrow> [] | k # rest \<Rightarrow> k)"

definition fresh_scan :: user_scan where
  "fresh_scan = \<lparr> alerts_sent = 0, calls = [], user_alerts_this_run = 0, user_cache = Map.empty \<rparr>"


definition bitcoin_rally :: signal where
  "bitcoin_rally =
     \<lparr> sig_id = StrId ''reddit_2def'', source = ''Reddit r/stocks'',
       headline = ''Bitcoin rallies 15%'', content = ''Fears of a crash fade'',
       sig_keywords = [''Bitcoin'', ''crypto''] \<rparr>"






section \<open>Properties of the string model\<close>

text \<open>
  \<open>lower\<close> maps the upper-case alphabet to the lower-case one and changes no other
  character; \<open>contains\<close> holds exactly when the first string occurs in the second as a
  contiguous block.
\<close>

lemma lower_alphabet: "lower ''ABCDEFGHIJKLMNOPQRSTUVWXYZ'' = ''abcdefghijklmnopqrstuvwxyz''"
  by (simp add: lower_def)

lemma upper_alphabet: "upper ''abcdefghijklmnopqrstuvwxyz'' = ''ABCDEFGHIJKLMNOPQRSTUVWXYZ''"
  by (simp add: upper_def)

lemma lower_other:
  "lower ''abcdefghijklmnopqrstuvwxyz0123456789 !#$%&()*+,-./:;<=>?@[]^_{|}~'' =
     ''abcdefghijklmnopqrstuvwxyz0123456789 !#$%&()*+,-./:;<=>?@[]^_{|}~''"
  by (simp add: lower_def)

lemma lower_char_only_letters_bits:
  "Char b0 b1 b2 b3 b4 b5 b6 b7 \<notin> set ''ABCDEFGHIJKLMNOPQRSTUVWXYZ'' \<Longrightarrow>
   lower_char (Char b0 b1 b2 b3 b4 b5 b6 b7) = Char b0 b1 b2 b3 b4 b5 b6 b7"
  by (cases b0; cases b1; cases b2; cases b3; cases b4; cases b5; cases b6; cases b7; simp)

lemma lower_char_only_letters:
  "c \<notin> set ''ABCDEFGHIJKLMNOPQRSTUVWXYZ'' \<Longrightarrow> lower_char c = c"
  by (cases c, hypsubst, erule lower_char_only_letters_bits)

lemma starts_with_iff: "starts_with p s \<longleftrightarrow> (\<exists>post. s = p @ post)"
  by (induction p s rule: starts_with.induct) auto

lemma contains_iff: "contains sub s \<longleftrightarrow> (\<exists>pre post. s = pre @ sub @ post)"
proof (induction s)
  case Nil
  show ?case by auto
next
  case (Cons c cs)
  show ?case
  proof
    assume "contains sub (c # cs)"
    then consider "starts_with sub (c # cs)" | "contains sub cs" by auto
    then show "\<exists>pre post. c # cs = pre @ sub @ post"
    proof cases
      case 1
      then obtain post where "c # cs = sub @ post" by (auto simp: starts_with_iff)
      then have "c # cs = [] @ sub @ post" by simp
      then show ?thesis by blast
    next
      case 2
      then obtain pre post where "cs = pre @ sub @ post" using Cons.IH by auto
      then have "c # cs = (c # pre) @ sub @ post" by simp
      then show ?thesis by blast
    qed
  next
    assume "\<exists>pre post. c # cs = pre @ sub @ post"
    then obtain pre post where eq: "c # cs = pre @ sub @ post" by blast
    show "contains sub (c # cs)"
    proof (cases pre)
      case Nil
      with eq have "starts_with sub (c # cs)" by (auto simp: starts_with_iff)
      then show ?thesis by simp
    next
      case (Cons x pre')
      with eq have "cs = pre' @ sub @ post" by simp
      then have "contains sub cs" using Cons.IH by blast
      then show ?thesis by simp
    qed
  qed
qed

section \<open>Properties of the sentiment classifier\<close>

text \<open>
  C5: the classifier labels a text Positive when its compound score is at least 0.05,
  Negative when it is at most -0.05 and Neutral strictly between the two, and returns the
  score unchanged; both boundary values belong to the Positive and the Negative side.
\<close>

theorem analyze_sentiment_thresholds:
  "(analyzer text \<ge> 0.05 \<longrightarrow> analyze_sentiment analyzer text = (Positive, analyzer text)) \<and>
   (analyzer text \<le> - 0.05 \<longrightarrow> analyze_sentiment analyzer text = (Negative, analyzer text)) \<and>
   (- 0.05 < analyzer text \<and> analyzer text < 0.05 \<longrightarrow>
      analyze_sentiment analyzer text = (Neutral, analyzer text))"
  by (simp add: analyze_sentiment_def Let_def)

theorem analyze_sentiment_thresholds_witness:
  "analyze_sentiment (\<lambda>t. 0.05) ''stocks rally'' = (Positive, 0.05) \<and>
   analyze_sentiment (\<lambda>t. - 0.05) ''stocks slip'' = (Negative, - 0.05) \<and>
   analyze_sentiment (\<lambda>t. 0.0499) ''stocks flat'' = (Neutral, 0.0499) \<and>
   analyze_sentiment (\<lambda>t. - 0.0499) ''stocks flat'' = (Neutral, - 0.0499)"
  using analyze_sentiment_thresholds [of "\<lambda>t. 0.05" "''stocks rally''"]
        analyze_sentiment_thresholds [of "\<lambda>t. - 0.05" "''stocks slip''"]
        analyze_sentiment_thresholds [of "\<lambda>t. 0.0499" "''stocks flat''"]
        analyze_sentiment_thresholds [of "\<lambda>t. - 0.0499" "''stocks flat''"]
  by simp

section \<open>Properties of the classification step\<close>

lemma analyze_loop_fst:
  "fst (analyze_loop analyzer ss acc) = fst acc @ map (analyze_signal analyzer) ss"
proof (induction ss arbitrary: acc)
  case Nil
  show ?case by simp
next
  case (Cons s ss)
  obtain xs b u where acc: "acc = (xs, b, u)" by (cases acc) auto
  show ?case unfolding acc by (simp add: Cons.IH Let_def)
qed

lemma analyzed_signals_map:
  "fst (analyze_signals_with_llm analyzer signals) = map (analyze_signal analyzer) signals"
proof -
  have "fst (analyze_loop analyzer signals ([], 0, 0)) = map (analyze_signal analyzer) signals"
    by (simp add: analyze_loop_fst)
  then show ?thesis
    by (auto simp: analyze_signals_with_llm_def Let_def split: prod.splits)
qed

lemma sentiment_analyze_signal:
  "sentiment (analyze_signal analyzer s) = fst (analyze_sentiment analyzer (full_text s))"
  by (simp add: analyze_signal_def Let_def split: prod.splits)

lemma urgency_analyze_signal:
  "urgency (analyze_signal analyzer s) =
     classify_urgency (fst (analyze_sentiment analyzer (full_text s)))
       (analyzer (full_text s)) (full_text s)"
  by (simp add: analyze_signal_def analyze_sentiment_def Let_def)

lemma full_text_analyze_signal: "full_text (analyze_signal analyzer s) = full_text s"
  by (simp add: analyze_signal_def full_text_def Let_def split: prod.splits)

lemma urgency_above_low_negative:
  "urgency (analyze_signal analyzer s) \<noteq> Low \<Longrightarrow>
   sentiment (analyze_signal analyzer s) = Negative"
  by (simp add: urgency_analyze_signal sentiment_analyze_signal classify_urgency_def
      split: if_splits)

text \<open>
  C1, as the code has it: the crisis words are looked for inside the Negative branch only.
  A Negative signal whose lower-cased headline and content contain "crash" or "plunge" is
  critical; a signal that is not Negative keeps urgency low, crisis word or not.
\<close>

theorem crisis_critical_only_when_negative:
  "\<forall>a \<in> set (fst (analyze_signals_with_llm analyzer signals)).
     (sentiment a = Negative \<and>
      (contains ''crash'' (lower (full_text a)) \<or> contains ''plunge'' (lower (full_text a)))
        \<longrightarrow> urgency a = Critical) \<and>
     (sentiment a \<noteq> Negative \<longrightarrow> urgency a = Low)"
proof
  fix a assume "a \<in> set (fst (analyze_signals_with_llm analyzer signals))"
  then obtain s where a: "a = analyze_signal analyzer s"
    by (auto simp: analyzed_signals_map)
  show "(sentiment a = Negative \<and>
      (contains ''crash'' (lower (full_text a)) \<or> contains ''plunge'' (lower (full_text a)))
        \<longrightarrow> urgency a = Critical) \<and>
     (sentiment a \<noteq> Negative \<longrightarrow> urgency a = Low)"
    unfolding a
    by (simp add: urgency_analyze_signal sentiment_analyze_signal full_text_analyze_signal
        classify_urgency_def)
qed

theorem crisis_critical_only_when_negative_witness:
  "urgency (analyze_signal (\<lambda>t. - 0.2) crash_rally) = Critical \<and>
   urgency (analyze_signal (\<lambda>t. 0.6) crash_rally) = Low"
proof -
  let ?neg = "analyze_signal (\<lambda>t. - 0.2) crash_rally"
  let ?pos = "analyze_signal (\<lambda>t. 0.6) crash_rally"
  have mem_neg: "?neg \<in> set (fst (analyze_signals_with_llm (\<lambda>t. - 0.2) [crash_rally]))"
    and mem_pos: "?pos \<in> set (fst (analyze_signals_with_llm (\<lambda>t. 0.6) [crash_rally]))"
    by (simp_all add: analyzed_signals_map)
  have label_neg: "sentiment ?neg = Negative" and label_pos: "sentiment ?pos \<noteq> Negative"
    by (simp_all add: sentiment_analyze_signal analyze_sentiment_def)
  have lexeme: "contains ''crash'' (lower (full_text ?neg))"
    by (simp add: full_text_analyze_signal) (simp add: full_text_def crash_rally_def lower_def)
  from crisis_critical_only_when_negative [of "\<lambda>t. - 0.2" "[crash_rally]"]
    mem_neg label_neg lexeme
  have "urgency ?neg = Critical" by blast
  moreover
  from crisis_critical_only_when_negative [of "\<lambda>t. 0.6" "[crash_rally]"] mem_pos label_pos
  have "urgency ?pos = Low" by blast
  ultimately show ?thesis by simp
qed

text \<open>
  The claim as the specification words it (critical whatever the label) fails: a text
  that contains "crash" and is scored 0.6 is labelled Positive and keeps urgency low.
\<close>

theorem crisis_not_critical_counterexample:
  "contains ''crash'' (lower (headline crash_rally @ '' '' @ content crash_rally)) \<and>
   map sentiment (fst (analyze_signals_with_llm (\<lambda>t. 0.6) [crash_rally])) = [Positive] \<and>
   map urgency (fst (analyze_signals_with_llm (\<lambda>t. 0.6) [crash_rally])) = [Low]"
  by (simp add: analyzed_signals_map urgency_analyze_signal sentiment_analyze_signal
      analyze_sentiment_def classify_urgency_def crash_rally_def lower_def)

text \<open>
  C10: in the output of the classification step an urgency of high or critical occurs
  only on a signal labelled Negative, so the filter of the on-demand scan (Negative, or
  urgency high or critical) admits exactly the signals labelled Negative.
\<close>

theorem urgency_implies_negative:
  "\<forall>a \<in> set (fst (analyze_signals_with_llm analyzer signals)).
     (urgency a = High \<or> urgency a = Critical \<longrightarrow> sentiment a = Negative) \<and>
     (admitted a \<longleftrightarrow> sentiment a = Negative)"
proof
  fix a assume "a \<in> set (fst (analyze_signals_with_llm analyzer signals))"
  then obtain s where a: "a = analyze_signal analyzer s"
    by (auto simp: analyzed_signals_map)
  have neg: "urgency a = High \<or> urgency a = Critical \<longrightarrow> sentiment a = Negative"
    using urgency_above_low_negative [of analyzer s] a by auto
  then have "admitted a \<longleftrightarrow> sentiment a = Negative"
    by (auto simp: admitted_def)
  with neg show "(urgency a = High \<or> urgency a = Critical \<longrightarrow> sentiment a = Negative) \<and>
     (admitted a \<longleftrightarrow> sentiment a = Negative)" by simp
qed

theorem urgency_implies_negative_witness:
  "urgency (analyze_signal (\<lambda>t. - 0.6) crash_rally) = Critical \<and>
   sentiment (analyze_signal (\<lambda>t. - 0.6) crash_rally) = Negative \<and>
   admitted (analyze_signal (\<lambda>t. - 0.6) crash_rally)"
proof -
  let ?a = "analyze_signal (\<lambda>t. - 0.6) crash_rally"
  have mem: "?a \<in> set (fst (analyze_signals_with_llm (\<lambda>t. - 0.6) [crash_rally]))"
    by (simp add: analyzed_signals_map)
  have crit: "urgency ?a = Critical"
    by (simp add: urgency_analyze_signal analyze_sentiment_def classify_urgency_def)
       (simp add: full_text_def crash_rally_def lower_def)
  from urgency_implies_negative [of "\<lambda>t. - 0.6" "[crash_rally]"] mem crit
  have "sentiment ?a = Negative \<and> admitted ?a" by blast
  with crit show ?thesis by simp
qed

section \<open>Properties of the on-demand scan\<close>

lemma send_telegram_alert_effect:
  "\<exists>new. snd (send_telegram_alert token post cs chat msg) = cs @ new \<and>
         fst (send_telegram_alert token post cs chat msg) = (filter delivered new \<noteq> []) \<and>
         length (filter delivered new) \<le> 1 \<and> length new \<le> 1"
  by (auto simp: send_telegram_alert_def Let_def delivered_def)

lemma trigger_user_calls:
  "\<exists>new. calls (trigger_user token post set_list signal kws username ud st) = calls st @ new \<and>
         alerts_sent (trigger_user token post set_list signal kws username ud st) =
           alerts_sent st + length (filter delivered new)"
proof (cases "chat_id ud")
  case None
  then show ?thesis by (simp add: trigger_user_def Let_def)
next
  case (Some c)
  let ?matched = "set kws \<inter> set (map lower (get_watchlist ud))"
  let ?msg = "Alert (urgency signal) (headline signal) (source signal) (sentiment signal)
                    (sentiment_score signal) (set_list ?matched) (ai_analysis signal)
                    (recommendation signal)"
  obtain new where new: "snd (send_telegram_alert token post (calls st) c ?msg) = calls st @ new"
    "fst (send_telegram_alert token post (calls st) c ?msg) = (filter delivered new \<noteq> [])"
    "length (filter delivered new) \<le> 1"
    using send_telegram_alert_effect [of token post "calls st" c ?msg] by blast
  show ?thesis
  proof (cases "?matched = {} \<or> c = []")
    case True
    then show ?thesis using Some by (auto simp: trigger_user_def Let_def)
  next
    case False
    have len: "length (filter delivered new) = (if filter delivered new \<noteq> [] then 1 else 0)"
      using new(3) by (cases "filter delivered new") auto
    show ?thesis
      using False Some new(1,2) len
      by (auto simp: trigger_user_def Let_def split: prod.splits)
  qed
qed

lemma trigger_user_matches:
  "map match_key (matches_found (trigger_user token post set_list signal
       (map lower (sig_keywords signal)) username ud st)) =
   map match_key (matches_found st) @
     (if keyword_match signal ud then [(username, sig_id signal)] else [])"
  by (auto simp: trigger_user_def keyword_match_def match_key_def Let_def
      split: option.splits prod.splits)

lemma trigger_users_calls:
  "\<exists>new. calls (trigger_users token post set_list signal kws us st) = calls st @ new \<and>
         alerts_sent (trigger_users token post set_list signal kws us st) =
           alerts_sent st + length (filter delivered new)"
proof (induction us arbitrary: st)
  case Nil
  show ?case by simp
next
  case (Cons u us)
  obtain username ud where u: "u = (username, ud)" by (cases u)
  let ?mid = "trigger_user token post set_list signal kws username ud st"
  obtain n1 where n1: "calls ?mid = calls st @ n1"
    "alerts_sent ?mid = alerts_sent st + length (filter delivered n1)"
    using trigger_user_calls by blast
  obtain n2 where n2: "calls (trigger_users token post set_list signal kws us ?mid) = calls ?mid @ n2"
    "alerts_sent (trigger_users token post set_list signal kws us ?mid) =
       alerts_sent ?mid + length (filter delivered n2)"
    using Cons.IH by blast
  show ?case unfolding u
    by (rule exI [of _ "n1 @ n2"]) (simp add: n1 n2)
qed

lemma trigger_users_matches:
  "map match_key (matches_found (trigger_users token post set_list signal
       (map lower (sig_keywords signal)) us st)) =
   map match_key (matches_found st) @
     map (\<lambda>u. (fst u, sig_id signal)) (filter (\<lambda>u. keyword_match signal (snd u)) us)"
proof (induction us arbitrary: st)
  case Nil
  show ?case by simp
next
  case (Cons u us)
  obtain username ud where u: "u = (username, ud)" by (cases u)
  show ?case unfolding u by (simp add: Cons.IH trigger_user_matches)
qed

lemma trigger_signals_calls:
  "\<exists>new. calls (trigger_signals token post set_list stored_data signals st) = calls st @ new \<and>
         alerts_sent (trigger_signals token post set_list stored_data signals st) =
           alerts_sent st + length (filter delivered new)"
proof (induction signals arbitrary: st)
  case Nil
  show ?case by simp
next
  case (Cons s signals)
  let ?mid = "trigger_signal token post set_list stored_data s st"
  have "\<exists>n1. calls ?mid = calls st @ n1 \<and>
      alerts_sent ?mid = alerts_sent st + length (filter delivered n1)"
  proof (cases "admitted s")
    case True
    then show ?thesis by (simp add: trigger_signal_def trigger_users_calls)
  next
    case False
    then show ?thesis by (simp add: trigger_signal_def)
  qed
  then obtain n1 where n1: "calls ?mid = calls st @ n1"
    "alerts_sent ?mid = alerts_sent st + length (filter delivered n1)"
    by blast
  obtain n2 where n2:
    "calls (trigger_signals token post set_list stored_data signals ?mid) = calls ?mid @ n2"
    "alerts_sent (trigger_signals token post set_list stored_data signals ?mid) =
       alerts_sent ?mid + length (filter delivered n2)"
    using Cons.IH by blast
  show ?case
    by (rule exI [of _ "n1 @ n2"]) (simp add: n1 n2)
qed

lemma trigger_signals_matches:
  "map match_key (matches_found (trigger_signals token post set_list stored_data signals st)) =
   map match_key (matches_found st) @ matching_pairs stored_data signals"
proof (induction signals arbitrary: st)
  case Nil
  show ?case by (simp add: matching_pairs_def)
next
  case (Cons s signals)
  have step: "map match_key (matches_found (trigger_signal token post set_list stored_data s st)) =
     map match_key (matches_found st) @ matching_pairs stored_data [s]"
    by (simp add: trigger_signal_def trigger_users_matches matching_pairs_def)
  have split: "matching_pairs stored_data (s # signals) =
      matching_pairs stored_data [s] @ matching_pairs stored_data signals"
    by (simp add: matching_pairs_def)
  show ?case by (simp add: Cons.IH step split)
qed

text \<open>
  C2: the on-demand scan records a match for every admitted signal and every user whose
  watchlist shares a keyword with it, whatever the transport answers, and \<open>alerts_sent\<close>
  is the number of transport calls of this run that were answered with success. In the
  scenario (one Negative signal, two matching users, delivery to one of them only) the
  response holds \<open>alerts_sent = 1\<close> and \<open>matches_found = 2\<close>.
\<close>

theorem trigger_check_counts:
  "(let (response, file', calls') =
          trigger_check file reddit yahoo moneycontrol analyzer token post set_list calls0;
        stored_data = fst (load_data file);
        analyzed_signals =
          fst (analyze_signals_with_llm analyzer (fetch_all_signals reddit yahoo moneycontrol))
    in map match_key (details response) = matching_pairs stored_data analyzed_signals \<and>
       r_matches_found response = length (matching_pairs stored_data analyzed_signals) \<and>
       take (length calls0) calls' = calls0 \<and>
       r_alerts_sent response = length (filter delivered (drop (length calls0) calls')))"
proof -
  obtain stored_data file' where ld: "load_data file = (stored_data, file')"
    by (cases "load_data file")
  obtain analyzed_signals summary where an:
    "analyze_signals_with_llm analyzer (fetch_all_signals reddit yahoo moneycontrol) =
       (analyzed_signals, summary)"
    by (cases "analyze_signals_with_llm analyzer (fetch_all_signals reddit yahoo moneycontrol)")
  let ?init = "\<lparr> alerts_sent = 0, calls = calls0, matches_found = [] \<rparr>"
  let ?st = "trigger_signals token post set_list stored_data analyzed_signals ?init"
  have "\<exists>new. calls ?st = calls ?init @ new \<and>
      alerts_sent ?st = alerts_sent ?init + length (filter delivered new)"
    by (rule trigger_signals_calls)
  then obtain new where new: "calls ?st = calls0 @ new"
    "alerts_sent ?st = length (filter delivered new)"
    by auto
  have m: "map match_key (matches_found ?st) = matching_pairs stored_data analyzed_signals"
    using trigger_signals_matches [where st = ?init and signals = analyzed_signals] by simp
  have len: "length (matches_found ?st) = length (matching_pairs stored_data analyzed_signals)"
    using arg_cong [OF m, of length] by simp
  show ?thesis
    by (simp add: trigger_check_def ld an Let_def m len new)
qed


theorem trigger_check_counts_witness:
  "r_alerts_sent (fst (trigger_check (Some alice_and_bob) [bitcoin_crash] [] [] (\<lambda>t. - 0.6)
      (Some ''token'') only_111 (in_order [''bitcoin'', ''crypto'']) [])) = 1 \<and>
   r_matches_found (fst (trigger_check (Some alice_and_bob) [bitcoin_crash] [] [] (\<lambda>t. - 0.6)
      (Some ''token'') only_111 (in_order [''bitcoin'', ''crypto'']) [])) = 2"
proof -
  let ?run = "trigger_check (Some alice_and_bob) [bitcoin_crash] [] [] (\<lambda>t. - 0.6)
      (Some ''token'') only_111 (in_order [''bitcoin'', ''crypto'']) []"
  have d: "length (filter delivered (snd (snd ?run))) = 1"
    by code_simp
  have pairs: "matching_pairs (fst (load_data (Some alice_and_bob)))
      (fst (analyze_signals_with_llm (\<lambda>t. - 0.6) (fetch_all_signals [bitcoin_crash] [] []))) =
      [(''alice'', StrId ''reddit_1abc''), (''bob'', StrId ''reddit_1abc'')]"
    by code_simp
  from trigger_check_counts [of "Some alice_and_bob" "[bitcoin_crash]" "[]" "[]" "\<lambda>t. - 0.6"
      "Some ''token''" only_111 "in_order [''bitcoin'', ''crypto'']" "[]"]
  have "r_matches_found (fst ?run) = length (matching_pairs (fst (load_data (Some alice_and_bob)))
      (fst (analyze_signals_with_llm (\<lambda>t. - 0.6) (fetch_all_signals [bitcoin_crash] [] []))))"
    and "r_alerts_sent (fst ?run) = length (filter delivered (snd (snd ?run)))"
    by (simp_all add: case_prod_beta Let_def)
  with pairs d show ?thesis by simp
qed

section \<open>Properties of the scheduled scan\<close>

subsection \<open>One signal\<close>

lemma scan_signal_skip:
  "\<not> is_bearish signal \<or> matched_of user_watchlist signal = {} \<or>
   current_time - last_sent_time (user_cache st) (first_of (matched_of user_watchlist signal)) < 14400 \<or>
   chat_id ud = None \<or> chat_id ud = Some [] \<or> \<not> valid_token token \<Longrightarrow>
   scan_signal token post first_of current_time ud user_watchlist signal st = st"
  by (auto simp: scan_signal_def matched_of_def Let_def send_telegram_alert_def valid_token_def
      split: option.splits)

lemma scan_signal_send:
  assumes "is_bearish signal" and "matched_of user_watchlist signal \<noteq> {}"
    and "topic = first_of (matched_of user_watchlist signal)"
    and "\<not> current_time - last_sent_time (user_cache st) topic < 14400"
    and "chat_id ud = Some c" and "c \<noteq> []" and "valid_token token"
    and "r = post (calls st) c (AutoAlert (headline signal) (source signal) topic)"
  shows "scan_signal token post first_of current_time ud user_watchlist signal st =
     (if r = Responded 200
      then st\<lparr> alerts_sent := alerts_sent st + 1,
               calls := calls st @ [(c, AutoAlert (headline signal) (source signal) topic, r)],
               user_alerts_this_run := user_alerts_this_run st + 1,
               user_cache := (user_cache st)(topic \<mapsto> current_time) \<rparr>
      else st\<lparr> calls := calls st @ [(c, AutoAlert (headline signal) (source signal) topic, r)] \<rparr>)"
  using assms
  by (auto simp: scan_signal_def matched_of_def Let_def send_telegram_alert_def valid_token_def)

text \<open>The three outcomes of one iteration.\<close>

lemma scan_signal_outcomes:
  "scan_signal token post first_of current_time ud user_watchlist signal st = st \<or>
   (\<exists>c topic. chat_id ud = Some (fst c) \<and> about_topic topic c \<and> \<not> delivered c \<and>
      scan_signal token post first_of current_time ud user_watchlist signal st =
        st\<lparr> calls := calls st @ [c] \<rparr>) \<or>
   (\<exists>c topic. chat_id ud = Some (fst c) \<and> about_topic topic c \<and> delivered c \<and>
      scan_signal token post first_of current_time ud user_watchlist signal st =
        st\<lparr> alerts_sent := alerts_sent st + 1, calls := calls st @ [c],
            user_alerts_this_run := user_alerts_this_run st + 1,
            user_cache := (user_cache st)(topic \<mapsto> current_time) \<rparr>)"
proof (cases "\<not> is_bearish signal \<or> matched_of user_watchlist signal = {} \<or>
   current_time - last_sent_time (user_cache st) (first_of (matched_of user_watchlist signal)) < 14400 \<or>
   chat_id ud = None \<or> chat_id ud = Some [] \<or> \<not> valid_token token")
  case True
  then show ?thesis using scan_signal_skip by blast
next
  case False
  define topic where "topic = first_of (matched_of user_watchlist signal)"
  from False obtain c where c: "chat_id ud = Some c" "c \<noteq> []" by auto
  define r where "r = post (calls st) c (AutoAlert (headline signal) (source signal) topic)"
  let ?call = "(c, AutoAlert (headline signal) (source signal) topic, r)"
  have eq: "scan_signal token post first_of current_time ud user_watchlist signal st =
     (if r = Responded 200
      then st\<lparr> alerts_sent := alerts_sent st + 1,
               calls := calls st @ [?call],
               user_alerts_this_run := user_alerts_this_run st + 1,
               user_cache := (user_cache st)(topic \<mapsto> current_time) \<rparr>
      else st\<lparr> calls := calls st @ [?call] \<rparr>)"
    using False c by (intro scan_signal_send) (auto simp: topic_def r_def)
  have props: "chat_id ud = Some (fst ?call)" "about_topic topic ?call"
    "delivered ?call \<longleftrightarrow> r = Responded 200"
    by (simp_all add: c about_topic_def delivered_def)
  show ?thesis
  proof (cases "r = Responded 200")
    case True
    with eq props show ?thesis by (intro disjI2) (metis (no_types))
  next
    case False
    with eq props show ?thesis by (intro disjI2 disjI1) (metis (no_types))
  qed
qed


subsection \<open>The ledger across the loops\<close>

lemma scan_signal_ledger:
  "\<exists>new. calls (scan_signal token post first_of current_time ud wl signal st) = calls st @ new \<and>
     (\<forall>t. user_cache (scan_signal token post first_of current_time ud wl signal st) t = user_cache st t \<or>
          user_cache (scan_signal token post first_of current_time ud wl signal st) t = Some current_time \<and>
          (\<exists>c \<in> set new. delivered c \<and> about_topic t c \<and> chat_id ud = Some (fst c)))"
  using scan_signal_outcomes [of token post first_of current_time ud wl signal st]
proof (elim disjE exE conjE)
  assume "scan_signal token post first_of current_time ud wl signal st = st"
  then show ?thesis by simp
next
  fix c topic
  assume "scan_signal token post first_of current_time ud wl signal st = st\<lparr>calls := calls st @ [c]\<rparr>"
  then show ?thesis by simp
next
  fix c topic
  assume c: "chat_id ud = Some (fst c)" "about_topic topic c" "delivered c"
    and eq: "scan_signal token post first_of current_time ud wl signal st =
      st\<lparr>alerts_sent := alerts_sent st + 1, calls := calls st @ [c],
          user_alerts_this_run := user_alerts_this_run st + 1,
          user_cache := (user_cache st)(topic \<mapsto> current_time)\<rparr>"
  show ?thesis
    unfolding eq using c by (intro exI [of _ "[c]"]) auto
qed

lemma scan_signals_ledger:
  "\<exists>new. calls (scan_signals token post first_of current_time ud wl signals st) = calls st @ new \<and>
     (\<forall>t. user_cache (scan_signals token post first_of current_time ud wl signals st) t = user_cache st t \<or>
          user_cache (scan_signals token post first_of current_time ud wl signals st) t = Some current_time \<and>
          (\<exists>c \<in> set new. delivered c \<and> about_topic t c \<and> chat_id ud = Some (fst c)))"
proof (induction signals arbitrary: st)
  case Nil
  show ?case by simp
next
  case (Cons signal rest)
  show ?case
  proof (cases "user_alerts_this_run st \<ge> 2")
    case True
    then show ?thesis by simp
  next
    case False
    let ?mid = "scan_signal token post first_of current_time ud wl signal st"
    let ?fin = "scan_signals token post first_of current_time ud wl rest ?mid"
    from scan_signal_ledger [of token post first_of current_time ud wl signal st]
    obtain n1 where n1: "calls ?mid = calls st @ n1"
      "\<And>t. user_cache ?mid t = user_cache st t \<or>
          user_cache ?mid t = Some current_time \<and>
          (\<exists>c \<in> set n1. delivered c \<and> about_topic t c \<and> chat_id ud = Some (fst c))"
      by blast
    from Cons.IH [of ?mid]
    obtain n2 where n2: "calls ?fin = calls ?mid @ n2"
      "\<And>t. user_cache ?fin t = user_cache ?mid t \<or>
          user_cache ?fin t = Some current_time \<and>
          (\<exists>c \<in> set n2. delivered c \<and> about_topic t c \<and> chat_id ud = Some (fst c))"
      by blast
    have fin: "scan_signals token post first_of current_time ud wl (signal # rest) st = ?fin"
      using False by simp
    have "calls ?fin = calls st @ (n1 @ n2)" by (simp add: n1 n2)
    moreover have "\<forall>t. user_cache ?fin t = user_cache st t \<or>
          user_cache ?fin t = Some current_time \<and>
          (\<exists>c \<in> set (n1 @ n2). delivered c \<and> about_topic t c \<and> chat_id ud = Some (fst c))"
    proof
      fix t
      from n1(2) [of t] n2(2) [of t]
      show "user_cache ?fin t = user_cache st t \<or>
          user_cache ?fin t = Some current_time \<and>
          (\<exists>c \<in> set (n1 @ n2). delivered c \<and> about_topic t c \<and> chat_id ud = Some (fst c))"
        by (elim disjE conjE bexE) auto
    qed
    ultimately show ?thesis unfolding fin by blast
  qed
qed

lemma scan_user_ledger:
  "\<exists>new. calls (scan_user token post first_of current_time signals username ud st) = calls st @ new \<and>
     (\<forall>u t. ledger_entry (sent_alert_cache (scan_user token post first_of current_time signals username ud st)) u t =
              ledger_entry (sent_alert_cache st) u t \<or>
            u = username \<and>
            ledger_entry (sent_alert_cache (scan_user token post first_of current_time signals username ud st)) u t =
              Some current_time \<and>
            (\<exists>c \<in> set new. delivered c \<and> about_topic t c \<and> chat_id ud = Some (fst c)))"
proof -
  define inner where "inner = (case sent_alert_cache st username of None \<Rightarrow> Map.empty | Some m \<Rightarrow> m)"
  define init where "init = \<lparr> alerts_sent = alerts_sent st, calls = calls st,
                    user_alerts_this_run = 0, user_cache = inner \<rparr>"
  define fin where "fin = scan_signals token post first_of current_time ud
     (map lower (get_watchlist ud)) signals init"
  have res: "scan_user token post first_of current_time signals username ud st =
     \<lparr> alerts_sent = alerts_sent fin, calls = calls fin,
       sent_alert_cache = (sent_alert_cache st)(username \<mapsto> user_cache fin) \<rparr>"
    by (simp add: scan_user_def Let_def fin_def init_def inner_def)
  from scan_signals_ledger [of token post first_of current_time ud "map lower (get_watchlist ud)" signals init]
  obtain new where new: "calls fin = calls init @ new"
    "\<And>t. user_cache fin t = user_cache init t \<or>
          user_cache fin t = Some current_time \<and>
          (\<exists>c \<in> set new. delivered c \<and> about_topic t c \<and> chat_id ud = Some (fst c))"
    unfolding fin_def by blast
  have inner_entry: "\<And>t. inner t = ledger_entry (sent_alert_cache st) username t"
    by (simp add: inner_def ledger_entry_def split: option.splits)
  have "calls fin = calls st @ new" using new(1) by (simp add: init_def)
  moreover have "\<forall>u t. ledger_entry ((sent_alert_cache st)(username \<mapsto> user_cache fin)) u t =
              ledger_entry (sent_alert_cache st) u t \<or>
            u = username \<and>
            ledger_entry ((sent_alert_cache st)(username \<mapsto> user_cache fin)) u t = Some current_time \<and>
            (\<exists>c \<in> set new. delivered c \<and> about_topic t c \<and> chat_id ud = Some (fst c))"
  proof (intro allI)
    fix u t
    show "ledger_entry ((sent_alert_cache st)(username \<mapsto> user_cache fin)) u t =
              ledger_entry (sent_alert_cache st) u t \<or>
            u = username \<and>
            ledger_entry ((sent_alert_cache st)(username \<mapsto> user_cache fin)) u t = Some current_time \<and>
            (\<exists>c \<in> set new. delivered c \<and> about_topic t c \<and> chat_id ud = Some (fst c))"
    proof (cases "u = username")
      case False
      then show ?thesis by (simp add: ledger_entry_def)
    next
      case True
      have "ledger_entry ((sent_alert_cache st)(username \<mapsto> user_cache fin)) username t = user_cache fin t"
        by (simp add: ledger_entry_def)
      moreover have "user_cache init t = ledger_entry (sent_alert_cache st) username t"
        by (simp add: init_def inner_entry)
      ultimately show ?thesis using new(2) [of t] True by auto
    qed
  qed
  ultimately show ?thesis unfolding res by (intro exI [of _ new]) simp
qed

lemma scan_users_ledger:
  "\<exists>new. calls (scan_users token post first_of current_time signals us st) = calls st @ new \<and>
     (\<forall>u t. ledger_entry (sent_alert_cache (scan_users token post first_of current_time signals us st)) u t =
              ledger_entry (sent_alert_cache st) u t \<or>
            ledger_entry (sent_alert_cache (scan_users token post first_of current_time signals us st)) u t =
              Some current_time \<and>
            (\<exists>ud. (u, ud) \<in> set us \<and>
               (\<exists>c \<in> set new. delivered c \<and> about_topic t c \<and> chat_id ud = Some (fst c))))"
proof (induction us arbitrary: st)
  case Nil
  show ?case by simp
next
  case (Cons x rest)
  obtain username ud where x: "x = (username, ud)" by (cases x)
  let ?mid = "scan_user token post first_of current_time signals username ud st"
  let ?fin = "scan_users token post first_of current_time signals rest ?mid"
  from scan_user_ledger [of token post first_of current_time signals username ud st]
  obtain n1 where n1: "calls ?mid = calls st @ n1"
    "\<And>u t. ledger_entry (sent_alert_cache ?mid) u t = ledger_entry (sent_alert_cache st) u t \<or>
            u = username \<and> ledger_entry (sent_alert_cache ?mid) u t = Some current_time \<and>
            (\<exists>c \<in> set n1. delivered c \<and> about_topic t c \<and> chat_id ud = Some (fst c))"
    by blast
  from Cons.IH [of ?mid]
  obtain n2 where n2: "calls ?fin = calls ?mid @ n2"
    "\<And>u t. ledger_entry (sent_alert_cache ?fin) u t = ledger_entry (sent_alert_cache ?mid) u t \<or>
            ledger_entry (sent_alert_cache ?fin) u t = Some current_time \<and>
            (\<exists>ud. (u, ud) \<in> set rest \<and>
               (\<exists>c \<in> set n2. delivered c \<and> about_topic t c \<and> chat_id ud = Some (fst c)))"
    by blast
  have "calls ?fin = calls st @ (n1 @ n2)" by (simp add: n1 n2)
  moreover have "\<forall>u t. ledger_entry (sent_alert_cache ?fin) u t = ledger_entry (sent_alert_cache st) u t \<or>
            ledger_entry (sent_alert_cache ?fin) u t = Some current_time \<and>
            (\<exists>ud'. (u, ud') \<in> set ((username, ud) # rest) \<and>
               (\<exists>c \<in> set (n1 @ n2). delivered c \<and> about_topic t c \<and> chat_id ud' = Some (fst c)))"
  proof (intro allI)
    fix u t
    from n1(2) [of u t] n2(2) [of u t]
    show "ledger_entry (sent_alert_cache ?fin) u t = ledger_entry (sent_alert_cache st) u t \<or>
            ledger_entry (sent_alert_cache ?fin) u t = Some current_time \<and>
            (\<exists>ud'. (u, ud') \<in> set ((username, ud) # rest) \<and>
               (\<exists>c \<in> set (n1 @ n2). delivered c \<and> about_topic t c \<and> chat_id ud' = Some (fst c)))"
      by (elim disjE conjE exE bexE) (simp, fastforce, fastforce, fastforce)
  qed
  ultimately show ?case unfolding x by (intro exI [of _ "n1 @ n2"]) simp
qed


subsection \<open>The per-run cap across the loops\<close>

lemma scan_signal_counts:
  "\<exists>new. calls (scan_signal token post first_of current_time ud wl signal st) = calls st @ new \<and>
     length (filter delivered new) \<le> 1 \<and>
     user_alerts_this_run (scan_signal token post first_of current_time ud wl signal st) =
       user_alerts_this_run st + length (filter delivered new) \<and>
     alerts_sent (scan_signal token post first_of current_time ud wl signal st) =
       alerts_sent st + length (filter delivered new)"
  using scan_signal_outcomes [of token post first_of current_time ud wl signal st]
proof (elim disjE exE conjE)
  assume "scan_signal token post first_of current_time ud wl signal st = st"
  then show ?thesis by simp
next
  fix c topic
  assume "\<not> delivered c"
    and "scan_signal token post first_of current_time ud wl signal st = st\<lparr>calls := calls st @ [c]\<rparr>"
  then show ?thesis by simp
next
  fix c topic
  assume "delivered c"
    and "scan_signal token post first_of current_time ud wl signal st =
      st\<lparr>alerts_sent := alerts_sent st + 1, calls := calls st @ [c],
          user_alerts_this_run := user_alerts_this_run st + 1,
          user_cache := (user_cache st)(topic \<mapsto> current_time)\<rparr>"
  then show ?thesis by simp
qed


lemma scan_signals_counts:
  "\<exists>new. calls (scan_signals token post first_of current_time ud wl signals st) = calls st @ new \<and>
     user_alerts_this_run (scan_signals token post first_of current_time ud wl signals st) =
       user_alerts_this_run st + length (filter delivered new) \<and>
     alerts_sent (scan_signals token post first_of current_time ud wl signals st) =
       alerts_sent st + length (filter delivered new) \<and>
     (user_alerts_this_run st \<le> 2 \<longrightarrow>
        user_alerts_this_run (scan_signals token post first_of current_time ud wl signals st) \<le> 2)"
proof (induction signals arbitrary: st)
  case Nil
  show ?case by simp
next
  case (Cons signal rest)
  show ?case
  proof (cases "user_alerts_this_run st \<ge> 2")
    case True
    then show ?thesis by simp
  next
    case False
    let ?mid = "scan_signal token post first_of current_time ud wl signal st"
    let ?fin = "scan_signals token post first_of current_time ud wl rest ?mid"
    from scan_signal_counts [of token post first_of current_time ud wl signal st]
    obtain n1 where n1: "calls ?mid = calls st @ n1" "length (filter delivered n1) \<le> 1"
      "user_alerts_this_run ?mid = user_alerts_this_run st + length (filter delivered n1)"
      "alerts_sent ?mid = alerts_sent st + length (filter delivered n1)"
      by blast
    from Cons.IH [of ?mid]
    obtain n2 where n2: "calls ?fin = calls ?mid @ n2"
      "user_alerts_this_run ?fin = user_alerts_this_run ?mid + length (filter delivered n2)"
      "alerts_sent ?fin = alerts_sent ?mid + length (filter delivered n2)"
      "user_alerts_this_run ?mid \<le> 2 \<longrightarrow> user_alerts_this_run ?fin \<le> 2"
      by blast
    have fin: "scan_signals token post first_of current_time ud wl (signal # rest) st = ?fin"
      using False by simp
    have mid_le: "user_alerts_this_run ?mid \<le> 2" using False n1(2,3) by simp
    show ?thesis unfolding fin
      using n1 n2 mid_le by (intro exI [of _ "n1 @ n2"]) simp
  qed
qed


lemma scan_user_counts:
  "\<exists>new. calls (scan_user token post first_of current_time signals username ud st) = calls st @ new \<and>
     length (filter delivered new) \<le> 2 \<and>
     alerts_sent (scan_user token post first_of current_time signals username ud st) =
       alerts_sent st + length (filter delivered new)"
proof -
  define init where "init = \<lparr> alerts_sent = alerts_sent st, calls = calls st,
       user_alerts_this_run = 0,
       user_cache = (case sent_alert_cache st username of None \<Rightarrow> Map.empty | Some m \<Rightarrow> m) \<rparr>"
  define fin where "fin = scan_signals token post first_of current_time ud
     (map lower (get_watchlist ud)) signals init"
  have res: "scan_user token post first_of current_time signals username ud st =
     \<lparr> alerts_sent = alerts_sent fin, calls = calls fin,
       sent_alert_cache = (sent_alert_cache st)(username \<mapsto> user_cache fin) \<rparr>"
    by (simp add: scan_user_def Let_def fin_def init_def)
  from scan_signals_counts [of token post first_of current_time ud "map lower (get_watchlist ud)" signals init]
  obtain new where new: "calls fin = calls init @ new"
    "user_alerts_this_run fin = user_alerts_this_run init + length (filter delivered new)"
    "alerts_sent fin = alerts_sent init + length (filter delivered new)"
    "user_alerts_this_run init \<le> 2 \<longrightarrow> user_alerts_this_run fin \<le> 2"
    unfolding fin_def by blast
  have "length (filter delivered new) \<le> 2" using new(2,4) by (simp add: init_def)
  then show ?thesis unfolding res using new(1,3)
    by (intro exI [of _ new]) (simp add: init_def)
qed

lemma scan_users_counts:
  "alerts_sent (scan_users token post first_of current_time signals us st) \<le>
     alerts_sent st + 2 * length us"
proof (induction us arbitrary: st)
  case Nil
  show ?case by simp
next
  case (Cons x rest)
  obtain username ud where x: "x = (username, ud)" by (cases x)
  let ?mid = "scan_user token post first_of current_time signals username ud st"
  from scan_user_counts [of token post first_of current_time signals username ud st]
  have "alerts_sent ?mid \<le> alerts_sent st + 2" by auto
  with Cons.IH [of ?mid] show ?case unfolding x by simp
qed

subsection \<open>Facts about the example inputs\<close>

lemma bitcoin_crash_bearish: "is_bearish bitcoin_crash"
  by (simp add: is_bearish_def bearish_keywords_def bitcoin_crash_def lower_def)

lemma bitcoin_rally_not_bearish: "\<not> is_bearish bitcoin_rally"
  by (simp add: is_bearish_def bearish_keywords_def bitcoin_rally_def lower_def)

lemma bitcoin_crash_matched: "matched_of [''bitcoin''] bitcoin_crash = {''bitcoin''}"
  by (simp add: matched_of_def bitcoin_crash_def lower_def)

lemma first_listed_bitcoin: "first_listed [''bitcoin''] {''bitcoin''} = ''bitcoin''"
  by (simp add: first_listed_def)

subsection \<open>Cooldown\<close>




subsection \<open>Bearish headlines\<close>

text \<open>
  C9: the scheduled scan considers a signal exactly when its lower-cased headline
  contains one of the seven bearish words. A signal without such a word leaves the
  state as it is; for a signal with one, the scan goes on to the keyword match, the
  cooldown and the transport. The content of the signal is never read, and the scan has
  no sentiment scorer among its inputs.
\<close>

theorem bearish_headline_gate:
  "(is_bearish signal \<longleftrightarrow>
      (let h = lower (headline signal)
       in contains ''crash'' h \<or> contains ''fall'' h \<or> contains ''drop'' h \<or>
          contains ''plunge'' h \<or> contains ''loss'' h \<or> contains ''sell-off'' h \<or>
          contains ''collapse'' h)) \<and>
   (\<not> is_bearish signal \<longrightarrow>
      scan_signal token post first_of current_time ud user_watchlist signal st = st) \<and>
   scan_signal token post first_of current_time ud user_watchlist (signal\<lparr>content := text\<rparr>) st =
     scan_signal token post first_of current_time ud user_watchlist signal st \<and>
   (is_bearish signal \<and> matched_of user_watchlist signal \<noteq> {} \<and>
    \<not> current_time - last_sent_time (user_cache st)
          (first_of (matched_of user_watchlist signal)) < 14400 \<and>
    chat_id ud = Some c \<and> c \<noteq> [] \<and> valid_token token \<longrightarrow>
      calls (scan_signal token post first_of current_time ud user_watchlist signal st) =
        calls st @
          [(c, AutoAlert (headline signal) (source signal)
                 (first_of (matched_of user_watchlist signal)),
            post (calls st) c
              (AutoAlert (headline signal) (source signal)
                 (first_of (matched_of user_watchlist signal))))])"
proof (intro conjI impI)
  show "is_bearish signal \<longleftrightarrow>
      (let h = lower (headline signal)
       in contains ''crash'' h \<or> contains ''fall'' h \<or> contains ''drop'' h \<or>
          contains ''plunge'' h \<or> contains ''loss'' h \<or> contains ''sell-off'' h \<or>
          contains ''collapse'' h)"
    by (simp add: is_bearish_def bearish_keywords_def Let_def)
next
  assume "\<not> is_bearish signal"
  then show "scan_signal token post first_of current_time ud user_watchlist signal st = st"
    by (intro scan_signal_skip) simp
next
  show "scan_signal token post first_of current_time ud user_watchlist (signal\<lparr>content := text\<rparr>) st =
     scan_signal token post first_of current_time ud user_watchlist signal st"
    by (simp add: scan_signal_def is_bearish_def Let_def)
next
  let ?topic = "first_of (matched_of user_watchlist signal)"
  let ?msg = "AutoAlert (headline signal) (source signal) ?topic"
  assume a: "is_bearish signal \<and> matched_of user_watchlist signal \<noteq> {} \<and>
    \<not> current_time - last_sent_time (user_cache st) ?topic < 14400 \<and>
    chat_id ud = Some c \<and> c \<noteq> [] \<and> valid_token token"
  have "scan_signal token post first_of current_time ud user_watchlist signal st =
     (if post (calls st) c ?msg = Responded 200
      then st\<lparr> alerts_sent := alerts_sent st + 1,
               calls := calls st @ [(c, ?msg, post (calls st) c ?msg)],
               user_alerts_this_run := user_alerts_this_run st + 1,
               user_cache := (user_cache st)(?topic \<mapsto> current_time) \<rparr>
      else st\<lparr> calls := calls st @ [(c, ?msg, post (calls st) c ?msg)] \<rparr>)"
    using a by (intro scan_signal_send) simp_all
  then show "calls (scan_signal token post first_of current_time ud user_watchlist signal st) =
        calls st @ [(c, ?msg, post (calls st) c ?msg)]"
    by simp
qed

theorem bearish_headline_gate_witness:
  "is_bearish bitcoin_crash \<and> \<not> is_bearish bitcoin_rally \<and>
   scan_signal (Some ''token'') always_ok (first_listed [''bitcoin'']) 1700000000 watcher
     [''bitcoin''] bitcoin_rally fresh_scan = fresh_scan \<and>
   calls (scan_signal (Some ''token'') always_ok (first_listed [''bitcoin'']) 1700000000 watcher
     [''bitcoin''] bitcoin_crash fresh_scan) =
     [(''111'', AutoAlert ''Bitcoin crashes 15%'' ''Reddit r/stocks'' ''bitcoin'', Responded 200)]"
proof -
  have pre: "matched_of [''bitcoin''] bitcoin_crash \<noteq> {}"
    "first_listed [''bitcoin''] (matched_of [''bitcoin''] bitcoin_crash) = ''bitcoin''"
    "last_sent_time (user_cache fresh_scan) ''bitcoin'' = 0"
    "chat_id watcher = Some ''111''" "valid_token (Some ''token'')"
    by (simp_all add: bitcoin_crash_matched first_listed_bitcoin last_sent_time_def
        fresh_scan_def watcher_def valid_token_def)
  have fields: "headline bitcoin_crash = ''Bitcoin crashes 15%''"
    "source bitcoin_crash = ''Reddit r/stocks''" "calls fresh_scan = []"
    by (simp_all add: bitcoin_crash_def fresh_scan_def)
  from bearish_headline_gate [where signal = bitcoin_rally and token = "Some ''token''"
      and post = always_ok and first_of = "first_listed [''bitcoin'']"
      and current_time = 1700000000 and ud = watcher and user_watchlist = "[''bitcoin'']"
      and st = fresh_scan]
    bitcoin_rally_not_bearish
  have skip: "scan_signal (Some ''token'') always_ok (first_listed [''bitcoin'']) 1700000000 watcher
     [''bitcoin''] bitcoin_rally fresh_scan = fresh_scan"
    by blast
  from bearish_headline_gate [where signal = bitcoin_crash and token = "Some ''token''"
      and post = always_ok and first_of = "first_listed [''bitcoin'']"
      and current_time = 1700000000 and ud = watcher and user_watchlist = "[''bitcoin'']"
      and st = fresh_scan and c = "''111''"]
    bitcoin_crash_bearish pre
  have send: "calls (scan_signal (Some ''token'') always_ok (first_listed [''bitcoin'']) 1700000000 watcher
     [''bitcoin''] bitcoin_crash fresh_scan) =
     [(''111'', AutoAlert ''Bitcoin crashes 15%'' ''Reddit r/stocks'' ''bitcoin'', Responded 200)]"
    by (simp add: fields always_ok_def)
  from bitcoin_crash_bearish bitcoin_rally_not_bearish skip send show ?thesis by simp
qed

subsection \<open>No signals\<close>






subsection \<open>Keyword matching\<close>








subsection \<open>Per-run cap\<close>



subsection \<open>Ledger writes\<close>

text \<open>
  C6: after a scheduled run, a ledger entry for a user and a topic that differs from the
  entry before the run holds the run's timestamp, and the run made a transport call to
  the chat of that user, about that topic, that was answered with success. A send that
  failed or was skipped therefore leaves the entry as it was.
\<close>

theorem ledger_written_on_success_only:
  "(let (outcome, cache', calls', file') =
          run_scheduled_alert_check file current_time reddit yahoo moneycontrol token post
            first_of cache calls0;
        new = drop (length calls0) calls'
    in \<forall>u t. ledger_entry cache' u t \<noteq> ledger_entry cache u t \<longrightarrow>
         ledger_entry cache' u t = Some current_time \<and>
         (\<exists>ud. (u, ud) \<in> set (fst (load_data file)) \<and>
            (\<exists>c \<in> set new. delivered c \<and> about_topic t c \<and> chat_id ud = Some (fst c))))"
proof -
  obtain stored_data file' where ld: "load_data file = (stored_data, file')"
    by (cases "load_data file")
  show ?thesis
  proof (cases "stored_data = []")
    case True
    then show ?thesis by (simp add: run_scheduled_alert_check_def ld)
  next
    case False
    define init where "init = \<lparr> alerts_sent = 0, calls = calls0, sent_alert_cache = cache \<rparr>"
    define fin where "fin = scan_users token post first_of current_time
        (fetch_all_signals reddit yahoo moneycontrol) stored_data init"
    have run: "run_scheduled_alert_check file current_time reddit yahoo moneycontrol token post
            first_of cache calls0 = (Completed (alerts_sent fin), sent_alert_cache fin, calls fin, file')"
      using False by (simp add: run_scheduled_alert_check_def ld Let_def fin_def init_def)
    from scan_users_ledger [of token post first_of current_time
        "fetch_all_signals reddit yahoo moneycontrol" stored_data init]
    obtain new where new: "calls fin = calls init @ new"
      "\<And>u t. ledger_entry (sent_alert_cache fin) u t = ledger_entry (sent_alert_cache init) u t \<or>
         ledger_entry (sent_alert_cache fin) u t = Some current_time \<and>
         (\<exists>ud. (u, ud) \<in> set stored_data \<and>
            (\<exists>c \<in> set new. delivered c \<and> about_topic t c \<and> chat_id ud = Some (fst c)))"
      unfolding fin_def by blast
    have d: "drop (length calls0) (calls fin) = new" using new(1) by (simp add: init_def)
    have i: "sent_alert_cache init = cache" by (simp add: init_def)
    show ?thesis
      unfolding run using new(2) by (simp add: ld d i) blast
  qed
qed

theorem ledger_written_on_success_only_witness:
  "ledger_entry (fst (snd (run_scheduled_alert_check (Some [(''alice'', watcher)]) 1700000000
       [bitcoin_crash] [] [] (Some ''token'') always_ok (first_listed [''bitcoin''])
       Map.empty []))) ''alice'' ''bitcoin'' = Some 1700000000 \<and>
   (\<exists>c \<in> set (fst (snd (snd (run_scheduled_alert_check (Some [(''alice'', watcher)]) 1700000000
       [bitcoin_crash] [] [] (Some ''token'') always_ok (first_listed [''bitcoin''])
       Map.empty [])))). delivered c \<and> about_topic ''bitcoin'' c) \<and>
   ledger_entry (fst (snd (run_scheduled_alert_check (Some [(''alice'', watcher)]) 1700000000
       [bitcoin_crash] [] [] (Some ''token'') never_ok (first_listed [''bitcoin''])
       Map.empty []))) ''alice'' ''bitcoin'' = None"
proof -
  let ?ok = "run_scheduled_alert_check (Some [(''alice'', watcher)]) 1700000000
       [bitcoin_crash] [] [] (Some ''token'') always_ok (first_listed [''bitcoin''])
       Map.empty []"
  let ?fail = "run_scheduled_alert_check (Some [(''alice'', watcher)]) 1700000000
       [bitcoin_crash] [] [] (Some ''token'') never_ok (first_listed [''bitcoin''])
       Map.empty []"
  have written: "ledger_entry (fst (snd ?ok)) ''alice'' ''bitcoin'' = Some 1700000000"
    by code_simp
  have none: "ledger_entry Map.empty ''alice'' ''bitcoin'' = None"
    by (simp add: ledger_entry_def)
  have undelivered: "filter delivered (fst (snd (snd ?fail))) = []"
    by code_simp
  from ledger_written_on_success_only [of "Some [(''alice'', watcher)]" 1700000000
      "[bitcoin_crash]" "[]" "[]" "Some ''token''" always_ok "first_listed [''bitcoin'']"
      Map.empty "[]"]
  have "ledger_entry (fst (snd ?ok)) ''alice'' ''bitcoin'' \<noteq> ledger_entry Map.empty ''alice'' ''bitcoin'' \<longrightarrow>
      (\<exists>c \<in> set (fst (snd (snd ?ok))). delivered c \<and> about_topic ''bitcoin'' c)"
    by (simp add: case_prod_beta Let_def) blast
  with written none
  have sent: "\<exists>c \<in> set (fst (snd (snd ?ok))). delivered c \<and> about_topic ''bitcoin'' c"
    by simp
  from ledger_written_on_success_only [of "Some [(''alice'', watcher)]" 1700000000
      "[bitcoin_crash]" "[]" "[]" "Some ''token''" never_ok "first_listed [''bitcoin'']"
      Map.empty "[]"]
  have "ledger_entry (fst (snd ?fail)) ''alice'' ''bitcoin'' \<noteq> ledger_entry Map.empty ''alice'' ''bitcoin'' \<longrightarrow>
      (\<exists>c \<in> set (fst (snd (snd ?fail))). delivered c)"
    by (simp add: case_prod_beta Let_def) blast
  moreover have "\<not> (\<exists>c \<in> set (fst (snd (snd ?fail))). delivered c)"
    using undelivered by (simp add: filter_empty_conv)
  ultimately have kept: "ledger_entry (fst (snd ?fail)) ''alice'' ''bitcoin'' = None"
    using none by simp
  from written sent kept show ?thesis by blast
qed

end
